theory Spec2Isabelle
  imports Complex_Main "HOL-Library.Sublist" "HOL-Library.AList"
begin

section \<open>SuiteCloud++ multi-environment support: a model of the extension's code\<close>

text \<open>
  The model follows the multi-client version of the environment switcher (the file with
  \<^verbatim>\<open>loadNetSuiteEnvironments\<close>, \<^verbatim>\<open>loadEnvironmentDetails\<close>, \<^verbatim>\<open>updateStatusBarItem\<close>,
  \<^verbatim>\<open>handleSelectEnvironment\<close> and \<^verbatim>\<open>onProjectJsonFileChanged\<close>).

  Conventions.
  \<^item> A JavaScript string is a list of code units; the model covers the code units
    U+0000 to U+00FF, one \<^typ>\<open>char\<close> each.
  \<^item> The module's global variables and the outside world the code writes to (the disk,
    the status bar item, the messages and commands it issues) are the fields of the record
    \<open>state\<close>; every function takes the state and returns the new one.
  \<^item> What the code reads from outside (the output of the SuiteCloud CLI, the clock, the
    project's \<^verbatim>\<open>suitecloud.config.js\<close>, the \<^verbatim>\<open>RegExp\<close> engine, the project file of the
    active editor) is the record \<open>world\<close>.
  \<^item> An \<^verbatim>\<open>async\<close> function is run to its end where it is called. A promise that rejects
    is the error value of the result; a rejection nobody awaits is logged as \<open>Unhandled\<close>.
  \<^item> Lines written to the output channel and to the console are left out.
\<close>

subsection \<open>Strings\<close>

text \<open>The character class \<^verbatim>\<open>[\u0000-\u001F\u007F-\u009F]\<close>.\<close>

definition isControlChar :: "char \<Rightarrow> bool" where
  "isControlChar c = (let n = (of_char c :: nat) in n \<le> 31 \<or> (127 \<le> n \<and> n \<le> 159))"

text \<open>White space and line terminators of ECMAScript below U+0100, as \<^verbatim>\<open>trim\<close> removes them.\<close>

definition isWhiteSpace :: "char \<Rightarrow> bool" where
  "isWhiteSpace c = ((of_char c :: nat) \<in> {9, 10, 11, 12, 13, 32, 160})"

definition trim :: "string \<Rightarrow> string" where
  "trim s = rev (dropWhile isWhiteSpace (rev (dropWhile isWhiteSpace s)))"

text \<open>\<^verbatim>\<open>toLowerCase\<close>: A to Z, and U+00C0 to U+00DE without the multiplication sign.\<close>

definition lowerChar :: "char \<Rightarrow> char" where
  "lowerChar c = (let n = (of_char c :: nat) in
     if (65 \<le> n \<and> n \<le> 90) \<or> (192 \<le> n \<and> n \<le> 222 \<and> n \<noteq> 215)
     then char_of (n + 32) else c)"

definition toLowerCase :: "string \<Rightarrow> string" where
  "toLowerCase s = map lowerChar s"

definition startsWith :: "string \<Rightarrow> string \<Rightarrow> bool" where
  "startsWith s p = prefix p s"

fun includes_str :: "string \<Rightarrow> string \<Rightarrow> bool" where
  "includes_str [] sub = (sub = [])"
| "includes_str (c # cs) sub = (prefix sub (c # cs) \<or> includes_str cs sub)"

text \<open>
  \<^verbatim>\<open>s.split(sep)\<close> for a separator string: \<open>cur\<close> holds the current piece, reversed.
  The code only splits at the non-empty separators \<^verbatim>\<open>"\n"\<close>, \<^verbatim>\<open>" | "\<close> and \<^verbatim>\<open>":"\<close>.
\<close>

function split_from :: "string \<Rightarrow> string \<Rightarrow> string \<Rightarrow> string list" where
  "split_from sep cur [] = [rev cur]"
| "split_from sep cur (c # cs) =
     (if sep \<noteq> [] \<and> prefix sep (c # cs)
      then rev cur # split_from sep [] (drop (length sep) (c # cs))
      else split_from sep (c # cur) cs)"
  by pat_completeness auto
termination
  by (relation "measure (\<lambda>(sep, cur, s). length s)") auto

definition split :: "string \<Rightarrow> string \<Rightarrow> string list" where
  "split s sep = split_from sep [] s"

text \<open>\<^verbatim>\<open>s.replace(pat, rep)\<close> for a string pattern: the first occurrence only.\<close>

fun replace_first :: "string \<Rightarrow> string \<Rightarrow> string \<Rightarrow> string" where
  "replace_first pat rep [] = (if pat = [] then rep else [])"
| "replace_first pat rep (c # cs) =
     (if prefix pat (c # cs) then rep @ drop (length pat) (c # cs)
      else c # replace_first pat rep cs)"

text \<open>The clean-up of one line of CLI output, the same in both loaders.\<close>

definition stripLine :: "string \<Rightarrow> string" where
  "stripLine line = replace_first ''[2K[1G'' [] (filter (\<lambda>c. \<not> isControlChar c) line)"

definition newline :: string where
  "newline = [CHR 0x0A]"

subsection \<open>Dates\<close>

text \<open>
  \<^verbatim>\<open>JSON.stringify\<close> writes a \<^verbatim>\<open>Date\<close> through \<^verbatim>\<open>toISOString\<close>. The argument is the
  time value, milliseconds since the epoch; \<open>civil\<close> turns a day number into year, month
  and day of the proleptic Gregorian calendar.
\<close>

definition digit :: "nat \<Rightarrow> char" where
  "digit n = char_of (48 + n mod 10)"

definition pad2 :: "nat \<Rightarrow> string" where
  "pad2 n = [digit (n div 10), digit n]"

definition pad3 :: "nat \<Rightarrow> string" where
  "pad3 n = digit (n div 100) # pad2 n"

definition pad4 :: "nat \<Rightarrow> string" where
  "pad4 n = digit (n div 1000) # pad3 n"

definition pad6 :: "nat \<Rightarrow> string" where
  "pad6 n = digit (n div 100000) # digit (n div 10000) # pad4 n"

definition civil :: "int \<Rightarrow> int \<times> nat \<times> nat" where
  "civil days =
     (let z = days + 719468;
          era = z div 146097;
          doe = z mod 146097;
          yoe = (doe - doe div 1460 + doe div 36524 - doe div 146096) div 365;
          doy = doe - (365 * yoe + yoe div 4 - yoe div 100);
          mp = (5 * doy + 2) div 153;
          d = doy - (153 * mp + 2) div 5 + 1;
          m = (if mp < 10 then mp + 3 else mp - 9);
          y = yoe + era * 400 + (if m \<le> 2 then 1 else 0)
      in (y, nat m, nat d))"

definition toISOString :: "int \<Rightarrow> string" where
  "toISOString t =
     (let ms = nat (t mod 86400000);
          ymd = civil (t div 86400000);
          y = fst ymd;
          year = (if 0 \<le> y \<and> y \<le> 9999 then pad4 (nat y)
                  else (if y < 0 then ''-'' else ''+'') @ pad6 (nat \<bar>y\<bar>))
      in year @ ''-'' @ pad2 (fst (snd ymd)) @ ''-'' @ pad2 (snd (snd ymd)) @ ''T''
         @ pad2 (ms div 3600000) @ '':'' @ pad2 (ms div 60000 mod 60) @ '':''
         @ pad2 (ms div 1000 mod 60) @ ''.'' @ pad3 (ms mod 1000) @ ''Z'')"

subsection \<open>JSON values and the project file\<close>

datatype json =
    JNull
  | JBool bool
  | JNum real
  | JStr string
  | JArr "json list"
  | JObj "(string \<times> json) list"

text \<open>
  A value read from parsed JSON is a \<^typ>\<open>json option\<close>: \<open>None\<close> is \<^verbatim>\<open>undefined\<close>.
  \<open>truthy\<close> is the test of \<^verbatim>\<open>if (v)\<close> and \<^verbatim>\<open>!v\<close>.
\<close>

fun truthy :: "json option \<Rightarrow> bool" where
  "truthy None = False"
| "truthy (Some JNull) = False"
| "truthy (Some (JBool b)) = b"
| "truthy (Some (JNum x)) = (x \<noteq> 0)"
| "truthy (Some (JStr s)) = (s \<noteq> [])"
| "truthy (Some (JArr xs)) = True"
| "truthy (Some (JObj fs)) = True"

datatype error = ENOENT | SyntaxError | TypeError | ExecFailed

text \<open>
  Reading and writing the two properties \<^verbatim>\<open>defaultAuthId\<close> and
  \<^verbatim>\<open>suiteCloudPlusPlusLastModified\<close> (no prototype has a property of these names). Reading
  one from \<^verbatim>\<open>null\<close> throws; a primitive or an array has none. Writing one to \<^verbatim>\<open>null\<close> or to
  a primitive throws (the module is compiled in strict mode); written to an array it is not
  part of what \<^verbatim>\<open>JSON.stringify\<close> prints.
\<close>

fun getProp :: "json \<Rightarrow> string \<Rightarrow> error + json option" where
  "getProp JNull k = Inl TypeError"
| "getProp (JObj fs) k = Inr (map_of fs k)"
| "getProp j k = Inr None"

fun setProp :: "json \<Rightarrow> string \<Rightarrow> json \<Rightarrow> error + json" where
  "setProp (JObj fs) k v = Inr (JObj (AList.update k v fs))"
| "setProp (JArr xs) k v = Inr (JArr xs)"
| "setProp j k v = Inl TypeError"

text \<open>
  The text of a file as \<^verbatim>\<open>JSON.parse\<close> sees it: not JSON, or the value it parses to.
  \<^verbatim>\<open>JSON.stringify(v, null, 4)\<close> prints a text that parses to \<open>v\<close> again.
\<close>

datatype contents = Malformed | Json json

subsection \<open>State and world\<close>

text \<open>
  A \<^verbatim>\<open>NetSuiteAuthAccountInfo\<close> object: its own properties in the order of their creation,
  all of them strings. \<^verbatim>\<open>{ name: envName }\<close> is \<open>[(''name'', envName)]\<close>.
\<close>

type_synonym env = "(string \<times> string) list"

datatype message =
    NoEnvironmentsFound
  | ErrorRetrievingEnvironments
  | RetrievedEnvironments nat
  | NoEnvironmentsToSelect
  | MoreThanOneConfigFile
  | UnexpectedError
  | DefaultAccountSet string

datatype effect =
    ReadFile string
  | WriteFile string json
  | ExecList
  | ExecInfo string
  | ShowErrorMessage message
  | ShowInformationMessage message
  | ShowQuickPick "string list" string
  | Unhandled error

datatype statusText = GettingEnvironments | Globe json

record statusBarItem =
  itemText :: statusText
  color :: "string option"
  visible :: bool

record state =
  environments :: "env list"
  defaultAuthIdsByProjectJson :: "string \<rightharpoonup> json option"
  disk :: "string \<rightharpoonup> contents"
  statusBar :: statusBarItem
  log :: "effect list"

text \<open>
  \<open>suiteCloudConfig\<close> is what \<^verbatim>\<open>getSuiteCloudConfig\<close> and \<^verbatim>\<open>require\<close> give for a project
  file: no config file, more than one, a module that fails to load, or the module's
  \<^verbatim>\<open>authIdFilter\<close> (a string, or absent). \<open>regExp p\<close> is \<^verbatim>\<open>new RegExp(p, 'i')\<close>: \<open>None\<close> when
  the pattern is invalid, else the \<^verbatim>\<open>test\<close> function of the regular expression.
\<close>

datatype configModule =
    NoConfigFile
  | SeveralConfigFiles
  | RequireFails
  | ModuleExports "string option"

record world =
  listOutput :: "string option"
  infoOutput :: "string \<Rightarrow> string option"
  nearestProjectJson :: "string option"
  suiteCloudConfig :: "string \<Rightarrow> configModule"
  regExp :: "string \<Rightarrow> (string \<Rightarrow> bool) option"
  now :: int

definition MSG_SHOW_ALL_ENVIRONMENTS :: string where
  "MSG_SHOW_ALL_ENVIRONMENTS = ''CLEAR FILTER / SHOW ALL''"

definition createStatusBarItem :: statusBarItem where
  "createStatusBarItem = \<lparr>itemText = GettingEnvironments, color = None, visible = True\<rparr>"

definition emit :: "effect \<Rightarrow> state \<Rightarrow> state" where
  "emit e s = s\<lparr>log := log s @ [e]\<rparr>"

text \<open>A call that is not awaited: its rejection is handled by nobody.\<close>

definition fireAndForget :: "error option \<times> state \<Rightarrow> state" where
  "fireAndForget r = (case fst r of None \<Rightarrow> snd r | Some e \<Rightarrow> emit (Unhandled e) (snd r))"

text \<open>\<^verbatim>\<open>env.name\<close>, and the same as a property key or in a string position.\<close>

definition nameOf :: "env \<Rightarrow> string option" where
  "nameOf e = map_of e ''name''"

definition nameKey :: "env \<Rightarrow> string" where
  "nameKey e = (case nameOf e of None \<Rightarrow> ''undefined'' | Some n \<Rightarrow> n)"

subsection \<open>The classification \<^verbatim>\<open>isProd\<close>\<close>

definition isProd :: "env list \<Rightarrow> string \<Rightarrow> bool" where
  "isProd envs authId =
     (if authId = [] then False
      else
        let accInfo = find (\<lambda>e. nameOf e = Some authId) envs;
            accountId = (case accInfo of None \<Rightarrow> []
                         | Some a \<Rightarrow> (case map_of a ''Account ID'' of None \<Rightarrow> [] | Some v \<Rightarrow> v));
            isTstdrvAcc = startsWith (toLowerCase accountId) ''tstdrv''
        in if isTstdrvAcc then False
           else if (case accInfo of None \<Rightarrow> False | Some a \<Rightarrow> map_of a ''type'' = Some ''Production'')
           then True
           else includes_str (toLowerCase authId) ''prod'')"

subsection \<open>The state cache and the status bar: \<^verbatim>\<open>updateStatusBarItem\<close>\<close>

text \<open>\<^verbatim>\<open>defaultAuthIdsByProjectJson[path]\<close>: \<^verbatim>\<open>undefined\<close> for a missing key and for a stored \<^verbatim>\<open>undefined\<close>.\<close>

definition cached :: "state \<Rightarrow> string \<Rightarrow> json option" where
  "cached s p = (case defaultAuthIdsByProjectJson s p of None \<Rightarrow> None | Some v \<Rightarrow> v)"

text \<open>The first half of \<^verbatim>\<open>updateStatusBarItem\<close>: the value of \<^verbatim>\<open>defaultAuthId\<close> for a project file.\<close>

definition lookupDefaultAuthId :: "string \<Rightarrow> state \<Rightarrow> (error + json option) \<times> state" where
  "lookupDefaultAuthId p s =
     (case cached s p of
        Some v \<Rightarrow> (Inr (Some v), s)
      | None \<Rightarrow>
          (let s1 = emit (ReadFile p) s in
           case disk s1 p of
             None \<Rightarrow> (Inl ENOENT, s1)
           | Some Malformed \<Rightarrow> (Inl SyntaxError, s1)
           | Some (Json j) \<Rightarrow>
               (case getProp j ''defaultAuthId'' of
                  Inl e \<Rightarrow> (Inl e, s1)
                | Inr d \<Rightarrow>
                    (Inr d, s1\<lparr>defaultAuthIdsByProjectJson :=
                                 (defaultAuthIdsByProjectJson s1)(p \<mapsto> d)\<rparr>))))"

text \<open>
  The second half: hide the item, or show the name in the colour of its class. A value
  that is truthy and no string is put into the text, then \<^verbatim>\<open>isProd\<close> throws at
  \<^verbatim>\<open>toLowerCase\<close>.
\<close>

definition render :: "json option \<Rightarrow> state \<Rightarrow> error option \<times> state" where
  "render d s =
     (if \<not> truthy d then (None, s\<lparr>statusBar := (statusBar s)\<lparr>visible := False\<rparr>\<rparr>)
      else case d of
        Some (JStr a) \<Rightarrow>
          (None, s\<lparr>statusBar :=
                    \<lparr>itemText = Globe (JStr a),
                     color = Some (if isProd (environments s) a then ''yellow'' else ''white''),
                     visible = True\<rparr>\<rparr>)
      | Some j \<Rightarrow> (Some TypeError, s\<lparr>statusBar := (statusBar s)\<lparr>itemText := Globe j\<rparr>\<rparr>)
      | None \<Rightarrow> (None, s))"

definition updateStatusBarItem :: "world \<Rightarrow> string option \<Rightarrow> state \<Rightarrow> error option \<times> state" where
  "updateStatusBarItem w jsonFile s =
     (case (case jsonFile of None \<Rightarrow> nearestProjectJson w | Some f \<Rightarrow> Some f) of
        None \<Rightarrow> render None s
      | Some p \<Rightarrow>
          (case lookupDefaultAuthId p s of
             (Inl e, s1) \<Rightarrow> (Some e, s1)
           | (Inr d, s1) \<Rightarrow> render d s1))"

subsection \<open>The catalog: \<^verbatim>\<open>loadNetSuiteEnvironments\<close> and \<^verbatim>\<open>loadEnvironmentDetails\<close>\<close>

text \<open>
  \<^verbatim>\<open>split\<close> never returns an empty array (\<open>split_from_nonempty\<close> below), so the first
  field \<^verbatim>\<open>[0]\<close> of a line is always there.
\<close>

definition parseEnvList :: "string \<Rightarrow> string list" where
  "parseEnvList stdout =
     map (\<lambda>line. hd (split (stripLine line) '' | '')) (split (trim stdout) newline)"

text \<open>
  \<^verbatim>\<open>oldEnvironmentsByName\<close>: a later entry of the same name replaces an earlier one. The
  object used as dictionary is taken as a map; a name that is a property of
  \<^verbatim>\<open>Object.prototype\<close> is outside the model.
\<close>

definition oldEnvironmentsByName :: "env list \<Rightarrow> (string \<rightharpoonup> env)" where
  "oldEnvironmentsByName envs = foldl (\<lambda>m e. m(nameKey e \<mapsto> e)) Map.empty envs"

text \<open>\<^verbatim>\<open>Object.keys(existing).length === 1 || !existing.type\<close>\<close>

definition noDetailsYet :: "env \<Rightarrow> bool" where
  "noDetailsYet e = (length e = 1 \<or> (case map_of e ''type'' of None \<Rightarrow> True | Some t \<Rightarrow> t = []))"

text \<open>One round of the \<^verbatim>\<open>forEach\<close> over the names: the new catalog and the names to get details for.\<close>

definition mergeStep :: "(string \<rightharpoonup> env) \<Rightarrow> env list \<times> string list \<Rightarrow> string \<Rightarrow> env list \<times> string list" where
  "mergeStep old acc envName =
     (case old envName of
        None \<Rightarrow> (fst acc @ [[(''name'', envName)]], snd acc @ [envName])
      | Some existing \<Rightarrow>
          (fst acc @ [existing],
           if noDetailsYet existing then snd acc @ [envName] else snd acc))"

definition mergeEnvironments :: "env list \<Rightarrow> string list \<Rightarrow> env list \<times> string list" where
  "mergeEnvironments envs envList = foldl (mergeStep (oldEnvironmentsByName envs)) ([], []) envList"

text \<open>\<^verbatim>\<open>envInfo[key] = val\<close>; an assignment to \<^verbatim>\<open>__proto__\<close> of a string changes nothing.\<close>

definition setField :: "env \<Rightarrow> string \<Rightarrow> string \<Rightarrow> env" where
  "setField e k v = (if k = ''__proto__'' then e else AList.update k v e)"

definition infoLine :: "env \<Rightarrow> string \<Rightarrow> env" where
  "infoLine envInfo line =
     (let parts = split line '':'' in
      if length parts = 2 then
        (let key = trim (parts ! 0);
             val = trim (parts ! 1);
             e1 = setField envInfo key val
         in if key = ''Account Type'' then setField e1 ''type'' val else e1)
      else envInfo)"

definition parseEnvInfo :: "string \<Rightarrow> string \<Rightarrow> env" where
  "parseEnvInfo envName stdout =
     foldl infoLine [(''name'', envName)] (map stripLine (split (trim stdout) newline))"

text \<open>\<^verbatim>\<open>envIndicesByName\<close>: the index of the last entry of each queued name.\<close>

definition envIndicesByName :: "env list \<Rightarrow> string list \<Rightarrow> (string \<rightharpoonup> nat)" where
  "envIndicesByName envs envList =
     foldl (\<lambda>m (i, e). case nameOf e of
                          None \<Rightarrow> m
                        | Some n \<Rightarrow> if n \<in> set envList then m(n \<mapsto> i) else m)
       Map.empty (zip [0..<length envs] envs)"

text \<open>
  The \<^verbatim>\<open>for\<close> loop of \<^verbatim>\<open>loadEnvironmentDetails\<close>. \<^verbatim>\<open>execPromise\<close> is awaited with no
  \<^verbatim>\<open>try\<close> around it: when the command fails the function rejects there.
\<close>

fun backfill :: "world \<Rightarrow> (string \<rightharpoonup> nat) \<Rightarrow> string list \<Rightarrow> state \<Rightarrow> error option \<times> state" where
  "backfill w idx [] s = (None, s)"
| "backfill w idx (envName # rest) s =
     (let s1 = emit (ExecInfo envName) s in
      case infoOutput w envName of
        None \<Rightarrow> (Some ExecFailed, s1)
      | Some stdout \<Rightarrow>
          backfill w idx rest
            (s1\<lparr>environments :=
                  (case idx envName of
                     None \<Rightarrow> environments s1
                   | Some i \<Rightarrow> (environments s1)[i := parseEnvInfo envName stdout])\<rparr>))"

definition loadEnvironmentDetails :: "world \<Rightarrow> string list \<Rightarrow> state \<Rightarrow> error option \<times> state" where
  "loadEnvironmentDetails w envList s =
     (case backfill w (envIndicesByName (environments s) envList) envList s of
        (Some e, s1) \<Rightarrow> (Some e, s1)
      | (None, s1) \<Rightarrow> (None, fireAndForget (updateStatusBarItem w None s1)))"

definition loadNetSuiteEnvironments :: "world \<Rightarrow> state \<Rightarrow> state" where
  "loadNetSuiteEnvironments w s =
     (let s1 = emit ExecList s in
      case listOutput w of
        None \<Rightarrow> emit (ShowErrorMessage ErrorRetrievingEnvironments) s1
      | Some stdout \<Rightarrow>
          (let envList = parseEnvList stdout;
               s2 = (if length envList = 0
                     then (emit (ShowErrorMessage NoEnvironmentsFound) s1)
                            \<lparr>statusBar := (statusBar s1)\<lparr>visible := False\<rparr>\<rparr>
                     else s1);
               merged = mergeEnvironments (environments s2) envList;
               s3 = emit (ShowInformationMessage (RetrievedEnvironments (length envList)))
                      (s2\<lparr>environments := fst merged\<rparr>)
           in if length (snd merged) > 0
              then fireAndForget (loadEnvironmentDetails w (snd merged) s3)
              else s3))"

subsection \<open>Writing the project file: \<^verbatim>\<open>onProjectJsonFileChanged\<close>\<close>

definition marker :: string where
  "marker = ''suiteCloudPlusPlusLastModified''"

text \<open>
  \<^verbatim>\<open>if (env)\<close> fails for \<^verbatim>\<open>undefined\<close> and for the empty string alike: \<open>chosen\<close> is the empty
  string for both. The call of \<^verbatim>\<open>loadNetSuiteEnvironments\<close> is not awaited; it handles its own
  errors.
\<close>

definition onProjectJsonFileChanged :: "world \<Rightarrow> string \<Rightarrow> string option \<Rightarrow> state \<Rightarrow> error option \<times> state" where
  "onProjectJsonFileChanged w p env s =
     (let s1 = emit (ReadFile p) s;
          chosen = (case env of None \<Rightarrow> [] | Some e \<Rightarrow> e);
          switch = (chosen \<noteq> [])
      in case disk s1 p of
           None \<Rightarrow> (Some ENOENT, s1)
         | Some Malformed \<Rightarrow> (Some SyntaxError, s1)
         | Some (Json j) \<Rightarrow>
             (case (if switch then setProp j ''defaultAuthId'' (JStr chosen) else Inr j) of
                Inl e \<Rightarrow> (Some e, s1)
              | Inr j1 \<Rightarrow>
                  (case getProp j1 marker of
                     Inl e \<Rightarrow> (Some e, s1)
                   | Inr m \<Rightarrow>
                       (let s2 = (if \<not> truthy m then loadNetSuiteEnvironments w s1 else s1) in
                        if switch then
                          (case setProp j1 marker (JStr (toISOString (now w))) of
                             Inl e \<Rightarrow> (Some e, s2)
                           | Inr j2 \<Rightarrow>
                               (None, emit (WriteFile p j2) (s2\<lparr>disk := (disk s2)(p \<mapsto> Json j2)\<rparr>)))
                        else (None, s2)))))"

text \<open>The handler of the file system watcher for \<^verbatim>\<open>**/project.json\<close>.\<close>

definition onDidChange :: "world \<Rightarrow> string \<Rightarrow> state \<Rightarrow> state" where
  "onDidChange w p s =
     (let s1 = s\<lparr>defaultAuthIdsByProjectJson := (defaultAuthIdsByProjectJson s)(p := None)\<rparr>;
          s2 = fireAndForget (updateStatusBarItem w (Some p) s1)
      in fireAndForget (onProjectJsonFileChanged w p None s2))"

subsection \<open>The selection flow: \<^verbatim>\<open>handleSelectEnvironment\<close>\<close>

text \<open>
  The list put before the user: the messages shown on the way, the entries and the
  placeholder; \<open>Inl\<close> when loading the config module or compiling the pattern throws.
\<close>

definition clearFilterEntry :: env where
  "clearFilterEntry = [(''name'', MSG_SHOW_ALL_ENVIRONMENTS)]"

definition checkFiltered :: "env list \<Rightarrow> message list \<Rightarrow> env list \<Rightarrow> string \<Rightarrow> message list \<times> env list \<times> string" where
  "checkFiltered envs msgs filtered placeholder =
     (msgs @ (if length filtered = 0 then [NoEnvironmentsToSelect] else []),
      filtered @ (if length filtered < length envs then [clearFilterEntry] else []),
      placeholder)"

definition selectionList :: "world \<Rightarrow> string \<Rightarrow> env list \<Rightarrow> bool \<Rightarrow> error + (message list \<times> env list \<times> string)" where
  "selectionList w p envs ignoreFilter =
     (if ignoreFilter then Inr ([], envs, [])
      else case suiteCloudConfig w p of
        NoConfigFile \<Rightarrow> Inr (checkFiltered envs [] envs [])
      | SeveralConfigFiles \<Rightarrow> Inr (checkFiltered envs [MoreThanOneConfigFile] envs [])
      | RequireFails \<Rightarrow> Inl ExecFailed
      | ModuleExports None \<Rightarrow> Inr (checkFiltered envs [] envs [])
      | ModuleExports (Some authIdFilter) \<Rightarrow>
          (if authIdFilter = [] then Inr (checkFiltered envs [] envs [])
           else case regExp w authIdFilter of
             None \<Rightarrow> Inl SyntaxError
           | Some test \<Rightarrow>
               Inr (checkFiltered envs [] (filter (\<lambda>val. test (nameKey val)) envs)
                      (''Filter: '' @ authIdFilter))))"

text \<open>
  \<open>picks\<close> are the answers of the user to the pickers shown one after the other: \<open>None\<close>
  when the picker is dismissed. With no answer left the flow waits at the picker.
\<close>

fun handleSelectEnvironment :: "world \<Rightarrow> string \<Rightarrow> env list \<Rightarrow> bool \<Rightarrow> string option list \<Rightarrow> state \<Rightarrow> state" where
  "handleSelectEnvironment w p envs ignoreFilter picks s =
     (case selectionList w p envs ignoreFilter of
        Inl e \<Rightarrow> emit (ShowErrorMessage UnexpectedError) s
      | Inr (msgs, items, placeholder) \<Rightarrow>
          (let s1 = emit (ShowQuickPick (map nameKey items) placeholder)
                      (s\<lparr>log := log s @ map ShowErrorMessage msgs\<rparr>)
           in case picks of
                [] \<Rightarrow> s1
              | None # rest \<Rightarrow> s1
              | Some env # rest \<Rightarrow>
                  if env = [] then s1
                  else if env = MSG_SHOW_ALL_ENVIRONMENTS
                  then handleSelectEnvironment w p envs True rest s1
                  else
                    (let s2 = s1\<lparr>defaultAuthIdsByProjectJson :=
                                   (defaultAuthIdsByProjectJson s1)(p \<mapsto> Some (JStr env))\<rparr>;
                         s3 = fireAndForget (updateStatusBarItem w None s2)
                     in case onProjectJsonFileChanged w p (Some env) s3 of
                          (Some e, s4) \<Rightarrow> emit (ShowErrorMessage UnexpectedError) s4
                        | (None, s4) \<Rightarrow> emit (ShowInformationMessage (DefaultAccountSet env)) s4)))"

declare handleSelectEnvironment.simps [simp del]

text \<open>The names handed to \<^verbatim>\<open>showQuickPick\<close>, and the errors shown before it.\<close>

definition presentedNames :: "world \<Rightarrow> string \<Rightarrow> env list \<Rightarrow> bool \<Rightarrow> string list" where
  "presentedNames w p envs ignoreFilter =
     (case selectionList w p envs ignoreFilter of
        Inl e \<Rightarrow> []
      | Inr (msgs, items, placeholder) \<Rightarrow> map nameKey items)"


subsection \<open>Notions of the specification\<close>




text \<open>
  The number of catalog refreshes started: the runs of the list command. An effect sets
  \<open>n\<close> as the active environment when it writes a project file whose \<^verbatim>\<open>defaultAuthId\<close>
  is \<open>n\<close>.
\<close>

definition refreshes :: "state \<Rightarrow> nat" where
  "refreshes s = count_list (log s) ExecList"

fun writesActive :: "string \<Rightarrow> effect \<Rightarrow> bool" where
  "writesActive n (WriteFile q j) = (getProp j ''defaultAuthId'' = Inr (Some (JStr n)))"
| "writesActive n e = False"

text \<open>
  What every step other than a write leaves alone: the disk, the values the cache holds,
  the writes logged so far and the number of refreshes.
\<close>

fun isWriteFile :: "effect \<Rightarrow> bool" where
  "isWriteFile (WriteFile q j) = True"
| "isWriteFile e = False"

definition keeps :: "state \<Rightarrow> state \<Rightarrow> bool" where
  "keeps s s' =
     (disk s' = disk s
      \<and> (\<forall>q v. cached s q = Some v \<longrightarrow> cached s' q = Some v)
      \<and> filter isWriteFile (log s') = filter isWriteFile (log s)
      \<and> refreshes s' = refreshes s)"

subsection \<open>Example inputs\<close>

text \<open>
  \<^verbatim>\<open>new RegExp(p, 'i')\<close> for a pattern \<open>p\<close> of letters and digits only: the test is whether
  the string contains \<open>p\<close> ignoring case.
\<close>

definition literalRegExp :: "string \<Rightarrow> (string \<Rightarrow> bool) option" where
  "literalRegExp p = Some (\<lambda>s. includes_str (toLowerCase s) (toLowerCase p))"

text \<open>
  A machine with the two accounts \<^verbatim>\<open>sandbox1\<close> and \<^verbatim>\<open>production\<close>, where the CLI fails to
  describe \<^verbatim>\<open>sandbox1\<close>, and a project whose config file filters by \<^verbatim>\<open>zzz\<close>.
\<close>

definition exampleWorld :: world where
  "exampleWorld =
     \<lparr>listOutput = Some (''sandbox1 | a'' @ newline @ ''production | b'' @ newline),
      infoOutput = (\<lambda>n. if n = ''sandbox1'' then None else Some ''Account Type: Production''),
      nearestProjectJson = Some ''/ws/project.json'',
      suiteCloudConfig = (\<lambda>p. ModuleExports (Some ''zzz'')),
      regExp = literalRegExp,
      now = 1762128000000\<rparr>"

definition exampleState :: state where
  "exampleState =
     \<lparr>environments = [],
      defaultAuthIdsByProjectJson = Map.empty,
      disk = [''/ws/project.json'' \<mapsto> Json (JObj [(''defaultAuthId'', JStr ''production''), (''other'', JNum 1)])],
      statusBar = createStatusBarItem,
      log = []\<rparr>"

definition twoEnvironments :: "env list" where
  "twoEnvironments = [[(''name'', ''sandbox1'')], [(''name'', ''production'')]]"



text \<open>
  The example state with a project file the extension has written before, with a project
  file whose marker is the empty string, and with the name of the clear-filter entry in
  the cache.
\<close>

definition markedState :: state where
  "markedState = exampleState\<lparr>disk := [''/ws/project.json'' \<mapsto>
      Json (JObj [(''defaultAuthId'', JStr ''production''),
                  (''suiteCloudPlusPlusLastModified'', JStr ''2025-01-01T00:00:00.000Z'')])]\<rparr>"

definition emptyMarkerState :: state where
  "emptyMarkerState = exampleState\<lparr>disk := [''/ws/project.json'' \<mapsto>
      Json (JObj [(''defaultAuthId'', JStr ''production''),
                  (''suiteCloudPlusPlusLastModified'', JStr [])])]\<rparr>"

definition clearCachedState :: state where
  "clearCachedState = exampleState\<lparr>defaultAuthIdsByProjectJson :=
      [''/ws/project.json'' \<mapsto> Some (JStr ''CLEAR FILTER / SHOW ALL'')]\<rparr>"

section \<open>Properties\<close>

subsection \<open>Strings\<close>

lemma split_from_nonempty: "split_from sep cur s \<noteq> []"
  by (induction sep cur s rule: split_from.induct) auto

lemma parseEnvList_nonempty: "parseEnvList out \<noteq> []"
  by (simp add: parseEnvList_def split_def split_from_nonempty)








subsection \<open>Classification\<close>



subsection \<open>Parsing the list of environments\<close>

text \<open>
  C4. The names are the first fields of the lines of the output. For an empty output the
  code does not get zero names: \<^verbatim>\<open>split\<close> gives one empty line, so the catalog has one
  entry with the empty name, the message for no environments is not shown, and the
  branch that shows it is never taken, whatever the output.
\<close>

theorem empty_output_gives_one_environment:
  "parseEnvList [] = [[]]
   \<and> length (parseEnvList out) \<noteq> 0
   \<and> fst (mergeEnvironments [] (parseEnvList [])) = [[(''name'', [])]]
   \<and> ShowErrorMessage NoEnvironmentsFound
        \<notin> set (log (loadNetSuiteEnvironments (exampleWorld\<lparr>listOutput := Some []\<rparr>) exampleState))
   \<and> ShowInformationMessage (RetrievedEnvironments 1)
        \<in> set (log (loadNetSuiteEnvironments (exampleWorld\<lparr>listOutput := Some []\<rparr>) exampleState))"
proof -
  have a: "parseEnvList [] = [[]]" by code_simp
  have b: "fst (mergeEnvironments [] (parseEnvList [])) = [[(''name'', [])]]" by code_simp
  have c: "log (loadNetSuiteEnvironments (exampleWorld\<lparr>listOutput := Some []\<rparr>) exampleState)
           = [ExecList, ShowInformationMessage (RetrievedEnvironments 1), ExecInfo [], ReadFile ''/ws/project.json'']"
    by code_simp
  have d: "length (parseEnvList out) \<noteq> 0" using parseEnvList_nonempty [of out] by simp
  show ?thesis unfolding c using a b d by simp
qed

subsection \<open>The list put before the user\<close>

text \<open>
  C6. When the config module has a filter pattern \<open>P\<close> that compiles, the entries put
  before the user are the entries of the list \<open>L\<close> whose name the regular expression
  matches, in the order of \<open>L\<close>, followed by the entry \<^verbatim>\<open>CLEAR FILTER / SHOW ALL\<close> when they
  are fewer than \<open>L\<close>; so a filtered list that is not empty and shorter than \<open>L\<close> gets that
  one entry as its last. (An empty pattern is not applied by the code; an empty regular
  expression matches every name.)
\<close>

theorem filtered_selection_list:
  assumes "suiteCloudConfig w p = ModuleExports (Some P)"
      and "regExp w P = Some test"
      and "P = [] \<longrightarrow> (\<forall>n. test n)"
  shows "(\<exists>msgs placeholder.
           selectionList w p L False =
             Inr (msgs,
                  filter (\<lambda>e. test (nameKey e)) L
                    @ (if length (filter (\<lambda>e. test (nameKey e)) L) < length L
                       then [clearFilterEntry] else []),
                  placeholder))
       \<and> (filter (\<lambda>e. test (nameKey e)) L \<noteq> [] \<and> length (filter (\<lambda>e. test (nameKey e)) L) < length L
            \<longrightarrow> presentedNames w p L False
                  = map nameKey (filter (\<lambda>e. test (nameKey e)) L) @ [MSG_SHOW_ALL_ENVIRONMENTS])"
proof (cases "P = []")
  case True
  with assms have "filter (\<lambda>e. test (nameKey e)) L = L" by simp
  with True assms(1) show ?thesis
    by (simp add: selectionList_def checkFiltered_def presentedNames_def)
next
  case False
  with assms(1,2) show ?thesis
    by (simp add: selectionList_def checkFiltered_def presentedNames_def clearFilterEntry_def nameKey_def nameOf_def)
qed

theorem filtered_selection_list_witness:
  "presentedNames (exampleWorld\<lparr>suiteCloudConfig := (\<lambda>p. ModuleExports (Some ''prod''))\<rparr>)
      ''/ws/project.json'' twoEnvironments False
   = [''production'', ''CLEAR FILTER / SHOW ALL'']"
proof -
  let ?w = "exampleWorld\<lparr>suiteCloudConfig := (\<lambda>p. ModuleExports (Some ''prod''))\<rparr>"
  let ?t = "\<lambda>s. includes_str (toLowerCase s) (toLowerCase ''prod'')"
  have h1: "suiteCloudConfig ?w ''/ws/project.json'' = ModuleExports (Some ''prod'')" by simp
  have h2: "regExp ?w ''prod'' = Some ?t" by (simp add: exampleWorld_def literalRegExp_def)
  have h3: "''prod'' = [] \<longrightarrow> (\<forall>n. ?t n)" by simp
  have f: "filter (\<lambda>e. ?t (nameKey e)) twoEnvironments = [[(''name'', ''production'')]]"
    by code_simp
  have l: "length twoEnvironments = 2" by (simp add: twoEnvironments_def)
  from filtered_selection_list [OF h1 h2 h3, of twoEnvironments]
  show ?thesis unfolding f l by (simp add: nameKey_def nameOf_def MSG_SHOW_ALL_ENVIRONMENTS_def)
qed

text \<open>
  C3. When the filter matches no entry of a catalog that is not empty, the error is shown
  and the picker holds the entry \<^verbatim>\<open>CLEAR FILTER / SHOW ALL\<close> alone, not the unfiltered list;
  choosing that entry opens a second picker with all the names.
\<close>

theorem empty_filter_offers_clear_filter:
  assumes "suiteCloudConfig w p = ModuleExports (Some P)" and "P \<noteq> []"
      and "regExp w P = Some test"
      and "filter (\<lambda>e. test (nameKey e)) L = []" and "L \<noteq> []"
  shows "selectionList w p L False = Inr ([NoEnvironmentsToSelect], [clearFilterEntry], ''Filter: '' @ P)
       \<and> log (handleSelectEnvironment w p L False [Some MSG_SHOW_ALL_ENVIRONMENTS] s)
           = log s @ [ShowErrorMessage NoEnvironmentsToSelect,
                      ShowQuickPick [MSG_SHOW_ALL_ENVIRONMENTS] (''Filter: '' @ P),
                      ShowQuickPick (map nameKey L) []]"
proof -
  have sel: "selectionList w p L False = Inr ([NoEnvironmentsToSelect], [clearFilterEntry], ''Filter: '' @ P)"
    using assms by (simp add: selectionList_def checkFiltered_def)
  have all: "selectionList w p L True = Inr ([], L, [])"
    by (simp add: selectionList_def)
  have m: "MSG_SHOW_ALL_ENVIRONMENTS \<noteq> []" by (simp add: MSG_SHOW_ALL_ENVIRONMENTS_def)
  have k: "nameKey clearFilterEntry = MSG_SHOW_ALL_ENVIRONMENTS"
    by (simp add: clearFilterEntry_def nameKey_def nameOf_def)
  show ?thesis
    using sel all m k by (simp add: handleSelectEnvironment.simps emit_def)
qed

theorem empty_filter_offers_clear_filter_witness:
  "log (handleSelectEnvironment exampleWorld ''/ws/project.json'' twoEnvironments False
          [Some MSG_SHOW_ALL_ENVIRONMENTS] exampleState)
   = [ShowErrorMessage NoEnvironmentsToSelect,
      ShowQuickPick [''CLEAR FILTER / SHOW ALL''] ''Filter: zzz'',
      ShowQuickPick [''sandbox1'', ''production''] []]"
proof -
  let ?t = "\<lambda>s. includes_str (toLowerCase s) (toLowerCase ''zzz'')"
  have h1: "suiteCloudConfig exampleWorld ''/ws/project.json'' = ModuleExports (Some ''zzz'')"
    by (simp add: exampleWorld_def)
  have h2: "''zzz'' \<noteq> []" by simp
  have h3: "regExp exampleWorld ''zzz'' = Some ?t" by (simp add: exampleWorld_def literalRegExp_def)
  have h4: "filter (\<lambda>e. ?t (nameKey e)) twoEnvironments = []" by code_simp
  have h5: "twoEnvironments \<noteq> []" by (simp add: twoEnvironments_def)
  have n: "map nameKey twoEnvironments = [''sandbox1'', ''production'']" by code_simp
  have l: "log exampleState = []" by (simp add: exampleState_def)
  from empty_filter_offers_clear_filter [OF h1 h2 h3 h4 h5, of exampleState]
  show ?thesis unfolding n l by (simp add: MSG_SHOW_ALL_ENVIRONMENTS_def)
qed

theorem empty_filter_presents_only_clear_entry_counterexample:
  "presentedNames exampleWorld ''/ws/project.json'' twoEnvironments False = [''CLEAR FILTER / SHOW ALL'']
   \<and> presentedNames exampleWorld ''/ws/project.json'' twoEnvironments False \<noteq> map nameKey twoEnvironments"
proof -
  have a: "presentedNames exampleWorld ''/ws/project.json'' twoEnvironments False = [''CLEAR FILTER / SHOW ALL'']"
    by code_simp
  have b: "map nameKey twoEnvironments = [''sandbox1'', ''production'']" by code_simp
  show ?thesis unfolding a b by simp
qed

subsection \<open>Merging the catalog\<close>













subsection \<open>Loading the details\<close>






subsection \<open>What the steps leave alone\<close>

lemma emit_simps [simp]:
  "log (emit e s) = log s @ [e]"
  "disk (emit e s) = disk s"
  "environments (emit e s) = environments s"
  "defaultAuthIdsByProjectJson (emit e s) = defaultAuthIdsByProjectJson s"
  "statusBar (emit e s) = statusBar s"
  by (simp_all add: emit_def)

lemma cached_emit [simp]: "cached (emit e s) q = cached s q"
  by (simp add: cached_def)

lemma keeps_refl [simp]: "keeps s s"
  by (simp add: keeps_def)

lemma keeps_trans: "keeps a b \<Longrightarrow> keeps b c \<Longrightarrow> keeps a c"
  by (simp add: keeps_def)

lemma keeps_emit: "\<not> isWriteFile e \<Longrightarrow> e \<noteq> ExecList \<Longrightarrow> keeps s (emit e s)"
  by (simp add: keeps_def refreshes_def)

lemma keeps_lookup: "keeps s (snd (lookupDefaultAuthId p s))"
  by (auto simp: keeps_def lookupDefaultAuthId_def refreshes_def cached_def Let_def
           split: option.splits contents.splits sum.splits)

lemma keeps_render: "keeps s (snd (render d s))"
  by (auto simp: keeps_def render_def refreshes_def cached_def
           split: option.splits json.splits)

lemma keeps_update: "keeps s (snd (updateStatusBarItem w f s))"
proof (cases "case f of None \<Rightarrow> nearestProjectJson w | Some x \<Rightarrow> Some x")
  case None
  then show ?thesis by (simp add: updateStatusBarItem_def keeps_render)
next
  case (Some p)
  obtain r s1 where l: "lookupDefaultAuthId p s = (r, s1)" by (cases "lookupDefaultAuthId p s")
  then have k: "keeps s s1" using keeps_lookup [of s p] by simp
  show ?thesis
  proof (cases r)
    case (Inl e)
    with Some l k show ?thesis by (simp add: updateStatusBarItem_def)
  next
    case (Inr d)
    with Some l have "snd (updateStatusBarItem w f s) = snd (render d s1)"
      by (simp add: updateStatusBarItem_def)
    with k keeps_render [of s1 d] show ?thesis by (auto intro: keeps_trans)
  qed
qed

lemma keeps_fireAndForget: "keeps s (snd r) \<Longrightarrow> keeps s (fireAndForget r)"
proof (cases "fst r")
  case None
  assume "keeps s (snd r)"
  with None show ?thesis by (simp add: fireAndForget_def)
next
  case (Some e)
  assume "keeps s (snd r)"
  moreover have "keeps (snd r) (emit (Unhandled e) (snd r))" by (simp add: keeps_emit)
  ultimately show ?thesis using Some by (auto simp: fireAndForget_def intro: keeps_trans)
qed

lemma keeps_environments: "keeps s (s\<lparr>environments := es\<rparr>)"
  by (simp add: keeps_def refreshes_def cached_def)

lemma keeps_statusBar: "keeps s (s\<lparr>statusBar := b\<rparr>)"
  by (simp add: keeps_def refreshes_def cached_def)

lemma keeps_backfill: "keeps s (snd (backfill w idx l s))"
proof (induction l arbitrary: s)
  case Nil
  then show ?case by simp
next
  case (Cons n ns)
  show ?case
  proof (cases "infoOutput w n")
    case None
    then show ?thesis by (simp add: keeps_emit Let_def)
  next
    case (Some out)
    let ?s1 = "emit (ExecInfo n) s"
    let ?s2 = "?s1\<lparr>environments := (case idx n of None \<Rightarrow> environments ?s1
                 | Some i \<Rightarrow> (environments ?s1)[i := parseEnvInfo n out])\<rparr>"
    have "keeps s ?s1" by (simp add: keeps_emit)
    moreover have "keeps ?s1 ?s2" by (rule keeps_environments)
    moreover have "keeps ?s2 (snd (backfill w idx ns ?s2))" by (rule Cons.IH)
    ultimately have "keeps s (snd (backfill w idx ns ?s2))" by (blast intro: keeps_trans)
    with Some show ?thesis by (simp add: Let_def)
  qed
qed

lemma keeps_details: "keeps s (snd (loadEnvironmentDetails w l s))"
proof -
  let ?idx = "envIndicesByName (environments s) l"
  obtain r s1 where b: "backfill w ?idx l s = (r, s1)" by (cases "backfill w ?idx l s")
  then have k: "keeps s s1" using keeps_backfill [of s w ?idx l] by simp
  show ?thesis
  proof (cases r)
    case None
    have "keeps s1 (fireAndForget (updateStatusBarItem w None s1))"
      by (rule keeps_fireAndForget) (rule keeps_update)
    with k None b show ?thesis
      by (auto simp: loadEnvironmentDetails_def intro: keeps_trans)
  next
    case (Some e)
    with k b show ?thesis by (simp add: loadEnvironmentDetails_def)
  qed
qed

lemma keeps_load: "keeps (emit ExecList s) (loadNetSuiteEnvironments w s)"
proof (cases "listOutput w")
  case None
  then show ?thesis by (simp add: loadNetSuiteEnvironments_def keeps_emit)
next
  case (Some out)
  let ?s1 = "emit ExecList s"
  let ?l = "parseEnvList out"
  let ?m = "mergeEnvironments (environments ?s1) ?l"
  let ?s3 = "emit (ShowInformationMessage (RetrievedEnvironments (length ?l))) (?s1\<lparr>environments := fst ?m\<rparr>)"
  have "keeps ?s1 (?s1\<lparr>environments := fst ?m\<rparr>)" by (rule keeps_environments)
  moreover have "keeps (?s1\<lparr>environments := fst ?m\<rparr>) ?s3" by (simp add: keeps_emit)
  ultimately have k3: "keeps ?s1 ?s3" by (blast intro: keeps_trans)
  have "keeps ?s3 (fireAndForget (loadEnvironmentDetails w (snd ?m) ?s3))"
    by (rule keeps_fireAndForget) (rule keeps_details)
  with k3 have k4: "keeps ?s1 (fireAndForget (loadEnvironmentDetails w (snd ?m) ?s3))"
    by (blast intro: keeps_trans)
  have ne: "?l \<noteq> []" by (rule parseEnvList_nonempty)
  from Some ne k3 k4 show ?thesis
    by (simp add: loadNetSuiteEnvironments_def Let_def)
qed

lemma load_disk [simp]: "disk (loadNetSuiteEnvironments w s) = disk s"
  using keeps_load [of s w] by (simp add: keeps_def)

lemma load_cached: "cached s q = Some v \<Longrightarrow> cached (loadNetSuiteEnvironments w s) q = Some v"
  using keeps_load [of s w] by (simp add: keeps_def)

lemma load_writes [simp]:
  "filter isWriteFile (log (loadNetSuiteEnvironments w s)) = filter isWriteFile (log s)"
  using keeps_load [of s w] by (simp add: keeps_def)

lemma load_refreshes [simp]: "refreshes (loadNetSuiteEnvironments w s) = Suc (refreshes s)"
  using keeps_load [of s w] by (simp add: keeps_def refreshes_def)

subsection \<open>The state cache\<close>

lemma toISOString_nonempty: "toISOString t \<noteq> []"
  by (simp add: toISOString_def Let_def)

lemma marker_neq [simp]: "marker \<noteq> ''defaultAuthId''" "''defaultAuthId'' \<noteq> marker"
  by (simp_all add: marker_def)

lemma render_log [simp]: "log (snd (render d s)) = log s"
  by (auto simp: render_def split: option.splits json.splits)

lemma render_cache [simp]:
  "defaultAuthIdsByProjectJson (snd (render d s)) = defaultAuthIdsByProjectJson s"
  by (auto simp: render_def split: option.splits json.splits)

lemma cached_cong: "defaultAuthIdsByProjectJson s' = defaultAuthIdsByProjectJson s \<Longrightarrow> cached s' q = cached s q"
  by (simp add: cached_def)

lemma lookup_hit: "cached s p = Some v \<Longrightarrow> lookupDefaultAuthId p s = (Inr (Some v), s)"
  by (simp add: lookupDefaultAuthId_def)

lemma lookup_miss:
  assumes "cached s p = None" and "disk s p = Some (Json (JObj fs))"
  shows "lookupDefaultAuthId p s
         = (Inr (map_of fs ''defaultAuthId''),
            (emit (ReadFile p) s)\<lparr>defaultAuthIdsByProjectJson :=
               (defaultAuthIdsByProjectJson s)(p \<mapsto> map_of fs ''defaultAuthId'')\<rparr>)"
  using assms by (simp add: lookupDefaultAuthId_def Let_def)

lemma update_hit:
  "cached s p = Some v \<Longrightarrow> updateStatusBarItem w (Some p) s = render (Some v) s"
  by (simp add: updateStatusBarItem_def lookup_hit)

lemma update_miss:
  assumes "cached s p = None" and "disk s p = Some (Json (JObj fs))"
  shows "updateStatusBarItem w (Some p) s
         = render (map_of fs ''defaultAuthId'')
             ((emit (ReadFile p) s)\<lparr>defaultAuthIdsByProjectJson :=
               (defaultAuthIdsByProjectJson s)(p \<mapsto> map_of fs ''defaultAuthId'')\<rparr>)"
  using assms by (simp add: updateStatusBarItem_def lookup_miss)

text \<open>
  C9. When the cache holds a value for the project file, the read returns it and nothing
  is read from the disk. On a miss the file is read once and the value of \<^verbatim>\<open>defaultAuthId\<close>
  is stored; when the file has the field (the empty string and \<^verbatim>\<open>null\<close> included) a second
  read of the unchanged file reads nothing from the disk.
\<close>

theorem cache_read:
  "(cached s p = Some v \<longrightarrow>
      lookupDefaultAuthId p s = (Inr (Some v), s)
      \<and> log (snd (updateStatusBarItem w (Some p) s)) = log s)
   \<and> (cached s p = None \<and> disk s p = Some (Json (JObj fs)) \<and> map_of fs ''defaultAuthId'' = Some v \<longrightarrow>
        log (snd (updateStatusBarItem w (Some p) s)) = log s @ [ReadFile p]
        \<and> cached (snd (updateStatusBarItem w (Some p) s)) p = Some v
        \<and> log (snd (updateStatusBarItem w (Some p) (snd (updateStatusBarItem w (Some p) s))))
            = log s @ [ReadFile p])"
proof (intro conjI impI)
  assume "cached s p = Some v"
  then show "lookupDefaultAuthId p s = (Inr (Some v), s)" by (rule lookup_hit)
next
  assume "cached s p = Some v"
  then show "log (snd (updateStatusBarItem w (Some p) s)) = log s" by (simp add: update_hit)
next
  assume a: "cached s p = None \<and> disk s p = Some (Json (JObj fs)) \<and> map_of fs ''defaultAuthId'' = Some v"
  let ?s1 = "snd (updateStatusBarItem w (Some p) s)"
  from a have u: "updateStatusBarItem w (Some p) s
      = render (Some v) ((emit (ReadFile p) s)\<lparr>defaultAuthIdsByProjectJson :=
               (defaultAuthIdsByProjectJson s)(p \<mapsto> Some v)\<rparr>)"
    using update_miss [of s p fs w] by simp
  then show l1: "log ?s1 = log s @ [ReadFile p]" by simp
  have "defaultAuthIdsByProjectJson ?s1 = (defaultAuthIdsByProjectJson s)(p \<mapsto> Some v)"
    unfolding u by simp
  then show c1: "cached ?s1 p = Some v" by (simp add: cached_def)
  from c1 l1 show "log (snd (updateStatusBarItem w (Some p) ?s1)) = log s @ [ReadFile p]"
    by (simp add: update_hit)
qed

theorem cache_read_witness:
  "log (snd (updateStatusBarItem exampleWorld (Some ''/ws/project.json'')
        (snd (updateStatusBarItem exampleWorld (Some ''/ws/project.json'') exampleState))))
   = [ReadFile ''/ws/project.json'']"
proof -
  have h: "cached exampleState ''/ws/project.json'' = None
     \<and> disk exampleState ''/ws/project.json''
         = Some (Json (JObj [(''defaultAuthId'', JStr ''production''), (''other'', JNum 1)]))
     \<and> map_of [(''defaultAuthId'', JStr ''production''), (''other'', JNum 1)] ''defaultAuthId''
         = Some (JStr ''production'')"
    by (simp add: exampleState_def cached_def)
  have l: "log exampleState = []" by (simp add: exampleState_def)
  from cache_read [of exampleState "''/ws/project.json''" "JStr ''production''" exampleWorld
        "[(''defaultAuthId'', JStr ''production''), (''other'', JNum 1)]"] h l
  show ?thesis by simp
qed

theorem absent_field_is_read_again_counterexample:
  "log (snd (updateStatusBarItem exampleWorld (Some ''/ws/project.json'')
        (snd (updateStatusBarItem exampleWorld (Some ''/ws/project.json'')
           (exampleState\<lparr>disk := [''/ws/project.json'' \<mapsto> Json (JObj [(''other'', JNum 1)])]\<rparr>)))))
   = [ReadFile ''/ws/project.json'', ReadFile ''/ws/project.json'']"
  by code_simp

subsection \<open>The write marker\<close>

lemma changed_notification:
  assumes "disk s p = Some (Json (JObj fs))"
  shows "onProjectJsonFileChanged w p None s
         = (None, if truthy (map_of fs marker) then emit (ReadFile p) s
                  else loadNetSuiteEnvironments w (emit (ReadFile p) s))"
  using assms by (simp add: onProjectJsonFileChanged_def Let_def)

lemma changed_switch:
  assumes "disk s p = Some (Json (JObj fs))" and "env \<noteq> []"
  shows "onProjectJsonFileChanged w p (Some env) s
         = (None,
            emit (WriteFile p (JObj (AList.update marker (JStr (toISOString (now w)))
                                      (AList.update ''defaultAuthId'' (JStr env) fs))))
              ((if truthy (map_of fs marker) then emit (ReadFile p) s
                else loadNetSuiteEnvironments w (emit (ReadFile p) s))
               \<lparr>disk := (disk s)(p \<mapsto> Json (JObj (AList.update marker (JStr (toISOString (now w)))
                                      (AList.update ''defaultAuthId'' (JStr env) fs))))\<rparr>))"
  using assms by (simp add: onProjectJsonFileChanged_def Let_def update_conv')

lemma changed_disk_notification: "disk (snd (onProjectJsonFileChanged w p None s)) = disk s"
  by (auto simp: onProjectJsonFileChanged_def Let_def split: option.splits contents.splits sum.splits)

lemma fireAndForget_disk [simp]: "disk (fireAndForget r) = disk (snd r)"
  by (cases "fst r") (simp_all add: fireAndForget_def)

lemma fireAndForget_refreshes [simp]: "refreshes (fireAndForget r) = refreshes (snd r)"
  by (cases "fst r") (simp_all add: fireAndForget_def refreshes_def)

lemma fireAndForget_cached [simp]: "cached (fireAndForget r) q = cached (snd r) q"
  by (cases "fst r") (simp_all add: fireAndForget_def)

lemma update_disk [simp]: "disk (snd (updateStatusBarItem w f s)) = disk s"
  using keeps_update [of s w f] by (simp add: keeps_def)

lemma update_refreshes [simp]: "refreshes (snd (updateStatusBarItem w f s)) = refreshes s"
  using keeps_update [of s w f] by (simp add: keeps_def)

lemma onDidChange_disk [simp]: "disk (onDidChange w p s) = disk s"
  by (simp add: onDidChange_def Let_def changed_disk_notification)

lemma onDidChange_refreshes:
  assumes "disk s p = Some (Json (JObj fs))"
  shows "refreshes (onDidChange w p s) = refreshes s + (if truthy (map_of fs marker) then 0 else 1)"
proof -
  let ?s1 = "s\<lparr>defaultAuthIdsByProjectJson := (defaultAuthIdsByProjectJson s)(p := None)\<rparr>"
  let ?s2 = "fireAndForget (updateStatusBarItem w (Some p) ?s1)"
  have d: "disk ?s2 p = Some (Json (JObj fs))" using assms by simp
  have "refreshes ?s1 = refreshes s" by (simp add: refreshes_def)
  then have r: "refreshes ?s2 = refreshes s" by simp
  have e: "refreshes (emit (ReadFile p) ?s2) = refreshes ?s2" by (simp add: refreshes_def)
  show ?thesis
    unfolding onDidChange_def Let_def changed_notification [OF d]
    using r e by (simp del: emit_simps)
qed

text \<open>
  C1. For a project file that holds a JSON object: a write made for a selected environment
  leaves the marker \<^verbatim>\<open>suiteCloudPlusPlusLastModified\<close> in the file, a string that is not
  empty. A change notification starts a catalog refresh exactly when the marker is not
  truthy, that is when it is absent, \<^verbatim>\<open>null\<close>, \<^verbatim>\<open>false\<close>, zero or the empty string; with a
  truthy marker no number of notifications starts one.
\<close>

theorem marker_written_and_refresh_rule:
  "disk s p = Some (Json (JObj fs)) \<longrightarrow>
     (env \<noteq> [] \<longrightarrow>
        fst (onProjectJsonFileChanged w p (Some env) s) = None
        \<and> (\<exists>fs'. disk (snd (onProjectJsonFileChanged w p (Some env) s)) p = Some (Json (JObj fs'))
              \<and> map_of fs' marker = Some (JStr (toISOString (now w)))
              \<and> truthy (map_of fs' marker)))
     \<and> toISOString (now w) \<noteq> []
     \<and> refreshes (onDidChange w p s) = refreshes s + (if truthy (map_of fs marker) then 0 else 1)
     \<and> (truthy (map_of fs marker) \<longrightarrow> refreshes ((onDidChange w p ^^ n) s) = refreshes s)"
proof (intro impI conjI)
  assume d: "disk s p = Some (Json (JObj fs))"
  show "toISOString (now w) \<noteq> []" by (rule toISOString_nonempty)
  show "refreshes (onDidChange w p s) = refreshes s + (if truthy (map_of fs marker) then 0 else 1)"
    using d by (rule onDidChange_refreshes)
  {
    assume t: "truthy (map_of fs marker)"
    have "disk ((onDidChange w p ^^ n) s) = disk s \<and> refreshes ((onDidChange w p ^^ n) s) = refreshes s"
    proof (induction n)
      case 0
      then show ?case by simp
    next
      case (Suc n)
      then have "disk ((onDidChange w p ^^ n) s) p = Some (Json (JObj fs))" using d by simp
      from onDidChange_refreshes [OF this, of w] t Suc show ?case by simp
    qed
    then show "refreshes ((onDidChange w p ^^ n) s) = refreshes s" by simp
  }
  {
    assume e: "env \<noteq> []"
    from changed_switch [OF d e, of w]
    show "fst (onProjectJsonFileChanged w p (Some env) s) = None" by simp
    from changed_switch [OF d e, of w]
    show "\<exists>fs'. disk (snd (onProjectJsonFileChanged w p (Some env) s)) p = Some (Json (JObj fs'))
              \<and> map_of fs' marker = Some (JStr (toISOString (now w)))
              \<and> truthy (map_of fs' marker)"
      by (simp add: update_conv' toISOString_nonempty)
  }
qed

theorem marker_written_and_refresh_rule_witness:
  "fst (onProjectJsonFileChanged exampleWorld ''/ws/project.json'' (Some ''sandbox1'') markedState) = None
   \<and> refreshes (onDidChange exampleWorld ''/ws/project.json'' markedState) = refreshes markedState
   \<and> refreshes ((onDidChange exampleWorld ''/ws/project.json'' ^^ 2) markedState) = refreshes markedState"
proof -
  let ?fs = "[(''defaultAuthId'', JStr ''production''),
              (''suiteCloudPlusPlusLastModified'', JStr ''2025-01-01T00:00:00.000Z'')]"
  have h1: "disk markedState ''/ws/project.json'' = Some (Json (JObj ?fs))"
    by (simp add: markedState_def)
  have h2: "''sandbox1'' \<noteq> []" by simp
  have h3: "truthy (map_of ?fs marker)" by (simp add: marker_def)
  from marker_written_and_refresh_rule [of markedState "''/ws/project.json''" ?fs "''sandbox1''" exampleWorld 2]
    h1 h2 h3
  show ?thesis by simp
qed

theorem empty_marker_refreshes_counterexample:
  "getProp (JObj [(''defaultAuthId'', JStr ''production''), (''suiteCloudPlusPlusLastModified'', JStr [])]) marker
     = Inr (Some (JStr []))
   \<and> refreshes emptyMarkerState = 0
   \<and> refreshes (onDidChange exampleWorld ''/ws/project.json'' emptyMarkerState) = 1
   \<and> refreshes (onDidChange exampleWorld ''/ws/project.json''
         (onDidChange exampleWorld ''/ws/project.json'' emptyMarkerState)) = 2"
  by code_simp

subsection \<open>Selecting an environment\<close>

lemma keeps_cached: "keeps s s' \<Longrightarrow> cached s q = Some v \<Longrightarrow> cached s' q = Some v"
  by (simp add: keeps_def)


lemma select_step:
  assumes "selectionList w p envs ig = Inr (msgs, items, ph)"
      and "env \<noteq> []" and "env \<noteq> MSG_SHOW_ALL_ENVIRONMENTS"
  shows "handleSelectEnvironment w p envs ig (Some env # rest) s
         = (let s1 = emit (ShowQuickPick (map nameKey items) ph) (s\<lparr>log := log s @ map ShowErrorMessage msgs\<rparr>);
                s2 = s1\<lparr>defaultAuthIdsByProjectJson := (defaultAuthIdsByProjectJson s1)(p \<mapsto> Some (JStr env))\<rparr>;
                s3 = fireAndForget (updateStatusBarItem w None s2)
            in case onProjectJsonFileChanged w p (Some env) s3 of
                 (Some e, s4) \<Rightarrow> emit (ShowErrorMessage UnexpectedError) s4
               | (None, s4) \<Rightarrow> emit (ShowInformationMessage (DefaultAccountSet env)) s4)"
  using assms by (simp add: handleSelectEnvironment.simps Let_def)




lemma writesActive_filter:
  "filter (writesActive n) (filter isWriteFile l) = filter (writesActive n) l"
proof -
  have "(isWriteFile e \<and> writesActive n e) = writesActive n e" for e
    by (cases e) simp_all
  then show ?thesis by (simp add: filter_filter)
qed

lemma keeps_writesActive:
  assumes "keeps s s'"
  shows "filter (writesActive n) (log s') = filter (writesActive n) (log s)"
proof -
  from assms have "filter isWriteFile (log s') = filter isWriteFile (log s)"
    by (simp add: keeps_def)
  then have "filter (writesActive n) (filter isWriteFile (log s'))
             = filter (writesActive n) (filter isWriteFile (log s))" by simp
  then show ?thesis by (simp only: writesActive_filter)
qed

lemma load_writesActive [simp]:
  "filter (writesActive n) (log (loadNetSuiteEnvironments w s)) = filter (writesActive n) (log s)"
proof -
  have "filter (writesActive n) (log (loadNetSuiteEnvironments w s))
        = filter (writesActive n) (log (emit ExecList s))"
    using keeps_load by (rule keeps_writesActive)
  then show ?thesis by simp
qed

lemma setProp_active:
  assumes "setProp j ''defaultAuthId'' (JStr env) = Inr j1" and "setProp j1 marker v = Inr j2"
      and "env \<noteq> n"
  shows "getProp j2 ''defaultAuthId'' \<noteq> Inr (Some (JStr n))"
  using assms by (cases j) (auto simp: update_conv')

lemma changed_writesActive:
  assumes "env \<noteq> n"
  shows "filter (writesActive n) (log (snd (onProjectJsonFileChanged w p (Some env) s)))
         = filter (writesActive n) (log s)"
  using assms
  by (auto simp: onProjectJsonFileChanged_def Let_def dest: setProp_active
           split: option.splits contents.splits sum.splits)

lemma changed_cached:
  assumes "cached s q = Some v"
  shows "cached (snd (onProjectJsonFileChanged w p e s)) q = Some v"
proof -
  have a: "cached (emit (ReadFile p) s) q = Some v" using assms by simp
  have b: "cached (loadNetSuiteEnvironments w (emit (ReadFile p) s)) q = Some v"
    using a by (rule load_cached)
  have c: "cached (x\<lparr>disk := d\<rparr>) q = cached x q" for x d by (simp add: cached_def)
  show ?thesis
    using a b
    by (auto simp: onProjectJsonFileChanged_def Let_def c
             split: option.splits contents.splits sum.splits)
qed

lemma select_other:
  assumes "selectionList w p envs ig = Inr (msgs, items, ph)"
      and "env \<noteq> []" and "env \<noteq> MSG_SHOW_ALL_ENVIRONMENTS"
  shows "filter (writesActive MSG_SHOW_ALL_ENVIRONMENTS)
           (log (handleSelectEnvironment w p envs ig (Some env # rest) s))
         = filter (writesActive MSG_SHOW_ALL_ENVIRONMENTS) (log s)
       \<and> cached (handleSelectEnvironment w p envs ig (Some env # rest) s) p = Some (JStr env)"
proof -
  let ?s1 = "emit (ShowQuickPick (map nameKey items) ph) (s\<lparr>log := log s @ map ShowErrorMessage msgs\<rparr>)"
  let ?s2 = "?s1\<lparr>defaultAuthIdsByProjectJson := (defaultAuthIdsByProjectJson ?s1)(p \<mapsto> Some (JStr env))\<rparr>"
  let ?s3 = "fireAndForget (updateStatusBarItem w None ?s2)"
  let ?r = "onProjectJsonFileChanged w p (Some env) ?s3"
  let ?s' = "handleSelectEnvironment w p envs ig (Some env # rest) s"
  have k23: "keeps ?s2 ?s3" by (rule keeps_fireAndForget) (rule keeps_update)
  have c3: "cached ?s3 p = Some (JStr env)"
    using k23 by (rule keeps_cached) (simp add: cached_def)
  have c4: "cached (snd ?r) p = Some (JStr env)" using c3 by (rule changed_cached)
  have "filter (writesActive MSG_SHOW_ALL_ENVIRONMENTS) (map ShowErrorMessage msgs) = []"
    by (induction msgs) simp_all
  then have l2: "filter (writesActive MSG_SHOW_ALL_ENVIRONMENTS) (log ?s2)
                 = filter (writesActive MSG_SHOW_ALL_ENVIRONMENTS) (log s)" by simp
  have l4: "filter (writesActive MSG_SHOW_ALL_ENVIRONMENTS) (log (snd ?r))
            = filter (writesActive MSG_SHOW_ALL_ENVIRONMENTS) (log s)"
    using changed_writesActive [OF assms(3), of w p ?s3] keeps_writesActive [OF k23] l2 by simp
  have s': "?s' = (case ?r of (Some e, s4) \<Rightarrow> emit (ShowErrorMessage UnexpectedError) s4
                   | (None, s4) \<Rightarrow> emit (ShowInformationMessage (DefaultAccountSet env)) s4)"
    using select_step [OF assms, of rest s] by (simp add: Let_def)
  show ?thesis
  proof (cases ?r)
    case (Pair e s4)
    with s' l4 c4 show ?thesis by (cases e) simp_all
  qed
qed

lemma msg_nonempty: "MSG_SHOW_ALL_ENVIRONMENTS \<noteq> []"
  by (simp add: MSG_SHOW_ALL_ENVIRONMENTS_def)

lemma select_clear:
  assumes "selectionList w p envs ig = Inr (msgs, items, ph)"
  shows "handleSelectEnvironment w p envs ig (Some MSG_SHOW_ALL_ENVIRONMENTS # rest) s
         = handleSelectEnvironment w p envs True rest
             (emit (ShowQuickPick (map nameKey items) ph) (s\<lparr>log := log s @ map ShowErrorMessage msgs\<rparr>))"
  using assms msg_nonempty by (simp add: handleSelectEnvironment.simps Let_def)

lemma picker_state:
  "filter (writesActive n) (log (emit (ShowQuickPick xs ph) (s\<lparr>log := log s @ map ShowErrorMessage msgs\<rparr>)))
     = filter (writesActive n) (log s)
   \<and> cached (emit (ShowQuickPick xs ph) (s\<lparr>log := log s @ map ShowErrorMessage msgs\<rparr>)) q = cached s q
   \<and> disk (emit (ShowQuickPick xs ph) (s\<lparr>log := log s @ map ShowErrorMessage msgs\<rparr>)) = disk s
   \<and> defaultAuthIdsByProjectJson (emit (ShowQuickPick xs ph) (s\<lparr>log := log s @ map ShowErrorMessage msgs\<rparr>))
       = defaultAuthIdsByProjectJson s"
proof -
  have "filter (writesActive n) (map ShowErrorMessage msgs) = []" by (induction msgs) simp_all
  then show ?thesis by (simp add: cached_def)
qed

lemma flow_never_activates_clear_entry:
  "filter (writesActive MSG_SHOW_ALL_ENVIRONMENTS) (log (handleSelectEnvironment w p envs ig picks s))
     = filter (writesActive MSG_SHOW_ALL_ENVIRONMENTS) (log s)
   \<and> (cached (handleSelectEnvironment w p envs ig picks s) p = Some (JStr MSG_SHOW_ALL_ENVIRONMENTS)
        \<longrightarrow> cached s p = Some (JStr MSG_SHOW_ALL_ENVIRONMENTS))"
proof (induction picks arbitrary: ig s)
  case Nil
  show ?case
  proof (cases "selectionList w p envs ig")
    case (Inl e)
    then show ?thesis by (simp add: handleSelectEnvironment.simps)
  next
    case (Inr sel)
    obtain msgs items ph where "sel = (msgs, items, ph)" by (cases sel) auto
    with Inr show ?thesis
      using picker_state [of MSG_SHOW_ALL_ENVIRONMENTS "map nameKey items" ph s msgs p]
      by (simp add: handleSelectEnvironment.simps Let_def)
  qed
next
  case (Cons pick rest)
  show ?case
  proof (cases "selectionList w p envs ig")
    case (Inl e)
    then show ?thesis by (simp add: handleSelectEnvironment.simps)
  next
    case (Inr sel)
    obtain msgs items ph where sel: "selectionList w p envs ig = Inr (msgs, items, ph)"
      using Inr by (cases sel) auto
    let ?s1 = "emit (ShowQuickPick (map nameKey items) ph) (s\<lparr>log := log s @ map ShowErrorMessage msgs\<rparr>)"
    note ps = picker_state [of MSG_SHOW_ALL_ENVIRONMENTS "map nameKey items" ph s msgs p]
    show ?thesis
    proof (cases pick)
      case None
      with sel ps show ?thesis by (simp add: handleSelectEnvironment.simps Let_def)
    next
      case (Some env)
      consider "env = []" | "env = MSG_SHOW_ALL_ENVIRONMENTS" | "env \<noteq> []" "env \<noteq> MSG_SHOW_ALL_ENVIRONMENTS"
        by blast
      then show ?thesis
      proof cases
        case 1
        with Some sel ps show ?thesis by (simp add: handleSelectEnvironment.simps Let_def)
      next
        case 2
        have "handleSelectEnvironment w p envs ig (pick # rest) s
              = handleSelectEnvironment w p envs True rest ?s1"
          using select_clear [OF sel] Some 2 by simp
        with Cons.IH [of True ?s1] ps show ?thesis by simp
      next
        case 3
        from select_other [OF sel 3, of rest s] Some 3 show ?thesis by simp
      qed
    qed
  qed
qed

text \<open>
  C10. Choosing the name \<^verbatim>\<open>CLEAR FILTER / SHOW ALL\<close> starts the flow again with the filter
  off, from a state that differs only by the messages and the picker shown. Whatever the
  user answers, the flow writes no project file with that name as \<^verbatim>\<open>defaultAuthId\<close>, and
  the cache holds that name for the project only if it did before.
\<close>

theorem clear_filter_entry_never_selected:
  "(selectionList w p envs ig = Inr (msgs, items, ph) \<longrightarrow>
      handleSelectEnvironment w p envs ig (Some MSG_SHOW_ALL_ENVIRONMENTS # rest) s
        = handleSelectEnvironment w p envs True rest
            (emit (ShowQuickPick (map nameKey items) ph) (s\<lparr>log := log s @ map ShowErrorMessage msgs\<rparr>)))
   \<and> filter (writesActive MSG_SHOW_ALL_ENVIRONMENTS) (log (handleSelectEnvironment w p envs ig picks s))
       = filter (writesActive MSG_SHOW_ALL_ENVIRONMENTS) (log s)
   \<and> (cached (handleSelectEnvironment w p envs ig picks s) p = Some (JStr MSG_SHOW_ALL_ENVIRONMENTS)
        \<longrightarrow> cached s p = Some (JStr MSG_SHOW_ALL_ENVIRONMENTS))"
  using select_clear [of w p envs ig msgs items ph rest s]
        flow_never_activates_clear_entry [of w p envs ig picks s]
  by blast

theorem clear_filter_entry_never_selected_witness:
  "handleSelectEnvironment exampleWorld ''/ws/project.json'' twoEnvironments False
       [Some MSG_SHOW_ALL_ENVIRONMENTS] clearCachedState
     = handleSelectEnvironment exampleWorld ''/ws/project.json'' twoEnvironments True []
         (emit (ShowQuickPick (map nameKey [clearFilterEntry]) ''Filter: zzz'')
            (clearCachedState\<lparr>log := log clearCachedState @ map ShowErrorMessage [NoEnvironmentsToSelect]\<rparr>))
   \<and> filter (writesActive MSG_SHOW_ALL_ENVIRONMENTS)
         (log (handleSelectEnvironment exampleWorld ''/ws/project.json'' twoEnvironments False
                 [Some MSG_SHOW_ALL_ENVIRONMENTS] clearCachedState)) = []
   \<and> cached clearCachedState ''/ws/project.json'' = Some (JStr MSG_SHOW_ALL_ENVIRONMENTS)"
proof -
  have h1: "selectionList exampleWorld ''/ws/project.json'' twoEnvironments False
            = Inr ([NoEnvironmentsToSelect], [clearFilterEntry], ''Filter: zzz'')"
    by code_simp
  have h2: "cached (handleSelectEnvironment exampleWorld ''/ws/project.json'' twoEnvironments False
                      [Some MSG_SHOW_ALL_ENVIRONMENTS] clearCachedState) ''/ws/project.json''
            = Some (JStr MSG_SHOW_ALL_ENVIRONMENTS)"
    by code_simp
  have l: "log clearCachedState = []" by (simp add: clearCachedState_def exampleState_def)
  note t = clear_filter_entry_never_selected
         [of exampleWorld "''/ws/project.json''" twoEnvironments False "[NoEnvironmentsToSelect]"
             "[clearFilterEntry]" "''Filter: zzz''" "[]" clearCachedState
             "[Some MSG_SHOW_ALL_ENVIRONMENTS]"]
  from t h1 have a: "handleSelectEnvironment exampleWorld ''/ws/project.json'' twoEnvironments False
       [Some MSG_SHOW_ALL_ENVIRONMENTS] clearCachedState
     = handleSelectEnvironment exampleWorld ''/ws/project.json'' twoEnvironments True []
         (emit (ShowQuickPick (map nameKey [clearFilterEntry]) ''Filter: zzz'')
            (clearCachedState\<lparr>log := log clearCachedState @ map ShowErrorMessage [NoEnvironmentsToSelect]\<rparr>))"
    by blast
  from t have "filter (writesActive MSG_SHOW_ALL_ENVIRONMENTS)
         (log (handleSelectEnvironment exampleWorld ''/ws/project.json'' twoEnvironments False
                 [Some MSG_SHOW_ALL_ENVIRONMENTS] clearCachedState))
       = filter (writesActive MSG_SHOW_ALL_ENVIRONMENTS) (log clearCachedState)"
    by blast
  then have b: "filter (writesActive MSG_SHOW_ALL_ENVIRONMENTS)
         (log (handleSelectEnvironment exampleWorld ''/ws/project.json'' twoEnvironments False
                 [Some MSG_SHOW_ALL_ENVIRONMENTS] clearCachedState)) = []"
    by (simp only: l filter.simps)
  from t h2 have c: "cached clearCachedState ''/ws/project.json'' = Some (JStr MSG_SHOW_ALL_ENVIRONMENTS)"
    by blast
  from a b c show ?thesis by blast
qed

end
